theory Spec2Isabelle
  imports Complex_Main "HOL-Library.Multiset" "HOL-Library.Sublist"
begin

section \<open>The JavaScript values the components compute with\<close>

text \<open>
  A JavaScript \<^verbatim>\<open>Date\<close> holds a time value: a whole number of milliseconds since the
  epoch, or NaN for an Invalid Date. It is modelled as \<open>int option\<close>, \<open>None\<close> being the
  Invalid Date. The same type stands for a number that may be NaN (the result of
  \<^verbatim>\<open>getTime()\<close> and of a subtraction of two such results).
\<close>

type_synonym Date = "int option"

definition msPerDay :: int where
  "msPerDay = 86400000"

text \<open>\<^verbatim>\<open>a - b\<close> on numbers: NaN as soon as one operand is NaN.\<close>

definition num_sub :: "int option \<Rightarrow> int option \<Rightarrow> int option" where
  "num_sub a b = (case a of None \<Rightarrow> None | Some x \<Rightarrow> (case b of None \<Rightarrow> None | Some y \<Rightarrow> Some (x - y)))"

text \<open>\<^verbatim>\<open>a <= b\<close> on numbers: false as soon as one operand is NaN.\<close>

definition num_le :: "int option \<Rightarrow> int option \<Rightarrow> bool" where
  "num_le a b = (case a of None \<Rightarrow> False | Some x \<Rightarrow> (case b of None \<Rightarrow> False | Some y \<Rightarrow> x \<le> y))"

text \<open>
  \<^verbatim>\<open>Array.prototype.sort(comparefn)\<close>. A comparator result of NaN counts as \<open>+0\<close>
  (\<open>cmp_order\<close>). The language leaves the order to the engine when the comparator does
  not order the elements consistently, and a comparator that answers NaN is such a one, so
  the model follows the engine the components run on, V8 (Chrome, Node), on an array that
  makes a single run, that is of fewer than 64 elements:
  \<^item> \<^verbatim>\<open>CountAndMakeRun\<close> compares the second element with the first; the run is
    descending when the result is negative. It then takes the elements that continue the
    run, each compared with the one before it (a descending run stops at a result that is
    not negative, an ascending one at a negative result), and reverses a descending run.
  \<^item> \<^verbatim>\<open>BinaryInsertionSort\<close> inserts each remaining element, from left to right, into
    the sorted part: a binary search that goes left when the comparison of the element with
    the middle one is negative and right otherwise.
  An engine cuts a longer array into several runs and merges them; the merge is left out,
  which changes nothing when the comparator orders the elements consistently (the result is
  then the stable sort, whatever the engine).
\<close>

definition cmp_order :: "int option \<Rightarrow> int" where
  "cmp_order v = (case v of None \<Rightarrow> 0 | Some n \<Rightarrow> n)"

fun run_extent :: "('a \<Rightarrow> 'a \<Rightarrow> int option) \<Rightarrow> bool \<Rightarrow> 'a \<Rightarrow> 'a list \<Rightarrow> nat" where
  "run_extent cmp isDescending previousElement [] = 0"
| "run_extent cmp isDescending previousElement (currentElement # rest) =
     (let order = cmp_order (cmp currentElement previousElement)
      in if (if isDescending then order \<ge> 0 else order < 0) then 0
         else Suc (run_extent cmp isDescending currentElement rest))"

function binarySearch ::
  "('a \<Rightarrow> 'a \<Rightarrow> int option) \<Rightarrow> 'a \<Rightarrow> 'a list \<Rightarrow> nat \<Rightarrow> nat \<Rightarrow> nat" where
  "binarySearch cmp pivot work left right =
     (if left < right then
        (let mid = left + (right - left) div 2
         in if cmp_order (cmp pivot (work ! mid)) < 0 then binarySearch cmp pivot work left mid
            else binarySearch cmp pivot work (mid + 1) right)
      else left)"
  by pat_completeness auto
termination
  by (relation "measure (\<lambda>(cmp, pivot, work, left, right). right - left)") auto

declare binarySearch.simps [simp del]

text \<open>The search runs over the whole sorted part, so \<open>mid\<close> is always an index of it.\<close>

definition insertPivot :: "('a \<Rightarrow> 'a \<Rightarrow> int option) \<Rightarrow> 'a list \<Rightarrow> 'a \<Rightarrow> 'a list" where
  "insertPivot cmp work pivot =
     (let left = binarySearch cmp pivot work 0 (length work)
      in take left work @ pivot # drop left work)"

definition array_sort :: "('a \<Rightarrow> 'a \<Rightarrow> int option) \<Rightarrow> 'a list \<Rightarrow> 'a list" where
  "array_sort cmp xs =
     (case xs of
        elementHigh # elementLow # rest \<Rightarrow>
          (let isDescending = cmp_order (cmp elementLow elementHigh) < 0;
               runLength = 2 + run_extent cmp isDescending elementLow rest;
               run = (if isDescending then rev (take runLength xs) else take runLength xs)
           in foldl (insertPivot cmp) run (drop runLength xs))
      | _ \<Rightarrow> xs)"

subsection \<open>date-fns on a zone with a fixed offset\<close>

text \<open>
  The local zone is \<open>tz\<close> milliseconds east of UTC, with no daylight-saving change.
  \<^verbatim>\<open>startOfDay\<close> sets the local hours, minutes, seconds and milliseconds to zero;
  \<^verbatim>\<open>isSameDay\<close> compares two starts of day and is false when either date is invalid;
  \<^verbatim>\<open>isToday\<close> and \<^verbatim>\<open>isTomorrow\<close> compare with the current instant and with the
  current instant moved one calendar day on; \<^verbatim>\<open>isBefore\<close> compares the two time values
  as instants.
\<close>

definition startOfDay :: "int \<Rightarrow> int \<Rightarrow> int" where
  "startOfDay tz t = ((t + tz) div msPerDay) * msPerDay - tz"

definition isSameDay :: "int \<Rightarrow> Date \<Rightarrow> Date \<Rightarrow> bool" where
  "isSameDay tz l r =
     (case l of None \<Rightarrow> False
      | Some a \<Rightarrow> (case r of None \<Rightarrow> False | Some b \<Rightarrow> startOfDay tz a = startOfDay tz b))"

definition addDays :: "int \<Rightarrow> int \<Rightarrow> int" where
  "addDays t n = t + n * msPerDay"

definition isBefore :: "Date \<Rightarrow> Date \<Rightarrow> bool" where
  "isBefore d c =
     (case d of None \<Rightarrow> False | Some a \<Rightarrow> (case c of None \<Rightarrow> False | Some b \<Rightarrow> a < b))"

text \<open>
  What a component reads from its host at one render: the two string parsers
  (\<^verbatim>\<open>parseISO\<close> of date-fns and the \<^verbatim>\<open>Date\<close> constructor), the zone offset and the
  clock. The parsers belong to the libraries, not to the repository, so they are taken
  as they come: the general properties below hold for whatever they return, and only the
  evaluations at concrete inputs fix them, to the instance of the next subsection. The
  clock is read once: the milliseconds that pass between the calls of one render are left
  out.
\<close>

record env =
  parseISO :: "string \<Rightarrow> Date"
  newDate :: "string \<Rightarrow> Date"
  tz :: int
  now :: int

definition isToday :: "env \<Rightarrow> Date \<Rightarrow> bool" where
  "isToday e d = isSameDay (tz e) d (Some (now e))"

definition isTomorrow :: "env \<Rightarrow> Date \<Rightarrow> bool" where
  "isTomorrow e d = isSameDay (tz e) d (Some (addDays (now e) 1))"

subsection \<open>The parsers on calendar dates\<close>

text \<open>
  The repository writes a due date as \<^verbatim>\<open>format(date, 'yyyy-MM-dd')\<close>. The instance
  below reads two forms of a calendar date and nothing else:
  \<^item> \<^verbatim>\<open>parseISO\<close> reads \<^verbatim>\<open>YYYY-MM-DD\<close> and the basic form \<^verbatim>\<open>YYYYMMDD\<close>, as the
    local midnight of that day, when the month has that day;
  \<^item> the \<^verbatim>\<open>Date\<close> constructor (V8) reads \<^verbatim>\<open>YYYY-MM-DD\<close> as the UTC midnight of that
    day, for a month from 1 to 12 and a day from 1 to 31: a day that the month does not
    have rolls over into the next month. It does not read \<^verbatim>\<open>YYYYMMDD\<close>.
  On every other string the instance answers with the Invalid Date. That is what the
  libraries do on a string that is no date at all (the empty string, a word); on the other
  forms they read (a date with a time, a week date) the instance is not their model, and
  no evaluation below uses it there.
\<close>

definition digit :: "char \<Rightarrow> int option" where
  "digit c = (let n = (of_char c :: nat) in if 48 \<le> n \<and> n \<le> 57 then Some (int n - 48) else None)"

definition ymd :: "char list \<Rightarrow> (int \<times> int \<times> int) option" where
  "ymd cs =
     (case those (map digit cs) of
        Some [a, b, c, d, m1, m2, d1, d2] \<Rightarrow>
          Some (1000 * a + 100 * b + 10 * c + d, 10 * m1 + m2, 10 * d1 + d2)
      | _ \<Rightarrow> None)"

definition parse_ymd :: "string \<Rightarrow> (int \<times> int \<times> int) option" where
  "parse_ymd s =
     (if length s = 10 \<and> s ! 4 = CHR ''-'' \<and> s ! 7 = CHR ''-''
      then ymd (take 4 s @ take 2 (drop 5 s) @ take 2 (drop 8 s))
      else None)"

definition parse_basic :: "string \<Rightarrow> (int \<times> int \<times> int) option" where
  "parse_basic s = (if length s = 8 then ymd s else None)"

definition isLeapYear :: "int \<Rightarrow> bool" where
  "isLeapYear y = (if y mod 400 = 0 then True else if y mod 100 = 0 then False else y mod 4 = 0)"

definition daysInMonth :: "int \<Rightarrow> int \<Rightarrow> int" where
  "daysInMonth y m =
     (if m = 2 then (if isLeapYear y then 29 else 28)
      else if m = 4 \<or> m = 6 \<or> m = 9 \<or> m = 11 then 30 else 31)"

text \<open>The day number of a calendar date, counted from 1970-01-01.\<close>

definition dayNumber :: "int \<Rightarrow> int \<Rightarrow> int \<Rightarrow> int" where
  "dayNumber y m d =
     (let y' = (if m \<le> 2 then y - 1 else y);
          era = y' div 400;
          yoe = y' - era * 400;
          doy = (153 * (if m > 2 then m - 3 else m + 9) + 2) div 5 + d - 1;
          doe = yoe * 365 + yoe div 4 - yoe div 100 + doy
      in era * 146097 + doe - 719468)"

definition parseISO_date :: "int \<Rightarrow> string \<Rightarrow> Date" where
  "parseISO_date z s =
     (case (case parse_ymd s of None \<Rightarrow> parse_basic s | Some t \<Rightarrow> Some t) of
        None \<Rightarrow> None
      | Some (y, m, d) \<Rightarrow>
          if 1 \<le> m \<and> m \<le> 12 \<and> 1 \<le> d \<and> d \<le> daysInMonth y m
          then Some (dayNumber y m d * msPerDay - z)
          else None)"

definition newDate_date :: "string \<Rightarrow> Date" where
  "newDate_date s =
     (case parse_ymd s of
        None \<Rightarrow> None
      | Some (y, m, d) \<Rightarrow>
          if 1 \<le> m \<and> m \<le> 12 \<and> 1 \<le> d \<and> d \<le> 31
          then Some ((dayNumber y m 1 + (d - 1)) * msPerDay)
          else None)"

definition date_env :: "int \<Rightarrow> int \<Rightarrow> env" where
  "date_env z t = \<lparr>parseISO = parseISO_date z, newDate = newDate_date, tz = z, now = t\<rparr>"

section \<open>ProgressSummary.tsx\<close>

datatype Status = ToDo | Done

text \<open>
  \<^verbatim>\<open>due_date\<close> is declared a string; the component still tests it for truthiness, so the
  field is \<open>None\<close> for a null column and may be the empty string.
\<close>

record ActionItem =
  id_item :: string
  description :: string
  assignee :: string
  due_date :: "string option"
  status :: Status
  meeting_id :: "string option"

definition truthy :: "string option \<Rightarrow> bool" where
  "truthy v = (case v of None \<Rightarrow> False | Some s \<Rightarrow> s \<noteq> [])"

text \<open>\<^verbatim>\<open>parseISO(item.due_date)\<close>, reached only behind the truthiness test.\<close>

definition parseDue :: "env \<Rightarrow> string option \<Rightarrow> Date" where
  "parseDue e v = (case v of None \<Rightarrow> None | Some s \<Rightarrow> parseISO e s)"

text \<open>\<^verbatim>\<open>new Date(item.due_date).getTime()\<close>; \<^verbatim>\<open>new Date(null)\<close> is the epoch.\<close>

definition dueTime :: "env \<Rightarrow> string option \<Rightarrow> int option" where
  "dueTime e v = (case v of None \<Rightarrow> Some 0 | Some s \<Rightarrow> newDate e s)"

definition completedTasks :: "ActionItem list \<Rightarrow> nat" where
  "completedTasks actionItems = length (filter (\<lambda>item. status item = Done) actionItems)"

definition totalTasks :: "ActionItem list \<Rightarrow> nat" where
  "totalTasks actionItems = length actionItems"

text \<open>The quotient is taken in the reals: the rounding of the doubles is left out.\<close>

definition completionRate :: "ActionItem list \<Rightarrow> real" where
  "completionRate actionItems =
     (if totalTasks actionItems > 0
      then (real (completedTasks actionItems) / real (totalTasks actionItems)) * 100
      else 0)"

definition todayTasks :: "env \<Rightarrow> ActionItem list \<Rightarrow> ActionItem list" where
  "todayTasks e actionItems =
     filter (\<lambda>item. status item = ToDo \<and> truthy (due_date item)
                    \<and> isToday e (parseDue e (due_date item))) actionItems"

definition overdueTasks :: "env \<Rightarrow> ActionItem list \<Rightarrow> ActionItem list" where
  "overdueTasks e actionItems =
     filter (\<lambda>item. status item = ToDo \<and> truthy (due_date item)
                    \<and> isBefore (parseDue e (due_date item)) (Some (now e))) actionItems"

definition urgentFilter :: "env \<Rightarrow> ActionItem \<Rightarrow> bool" where
  "urgentFilter e item =
     (if \<not> truthy (due_date item) then False
      else (let dueDate = parseDue e (due_date item)
            in status item = ToDo \<and> (isToday e dueDate \<or> isTomorrow e dueDate)))"

definition urgentCompare :: "env \<Rightarrow> ActionItem \<Rightarrow> ActionItem \<Rightarrow> int option" where
  "urgentCompare e a b = num_sub (dueTime e (due_date a)) (dueTime e (due_date b))"

definition urgentDeadlines :: "env \<Rightarrow> ActionItem list \<Rightarrow> ActionItem list" where
  "urgentDeadlines e actionItems =
     take 5 (array_sort (urgentCompare e) (filter (urgentFilter e) actionItems))"

datatype Badge = Overdue | DueToday | DueTomorrow

definition getUrgencyBadge :: "env \<Rightarrow> string \<Rightarrow> Badge option" where
  "getUrgencyBadge e dueDate =
     (let date = parseISO e dueDate
      in if isBefore date (Some (now e)) then Some Overdue
         else if isToday e date then Some DueToday
         else if isTomorrow e date then Some DueTomorrow
         else None)"

section \<open>IdeaVotingBoard.tsx\<close>

datatype VoteType = Upvote | Downvote

record Idea =
  id_idea :: string
  title :: string
  description_idea :: string
  proposer :: string
  votes :: int
  created_at :: "string option"

record IdeaVote =
  id_vote :: string
  idea_id :: string
  user_id :: string
  vote_type :: VoteType

subsection \<open>The votes of the current user, grouped by idea\<close>

text \<open>
  The reducer of \<^verbatim>\<open>fetchUserVotes\<close>: a vote opens the group of its idea when there is
  none and is pushed at the end of that group.
\<close>

definition pushVote :: "(string \<rightharpoonup> IdeaVote list) \<Rightarrow> IdeaVote \<Rightarrow> (string \<rightharpoonup> IdeaVote list)" where
  "pushVote acc vote =
     (case acc (idea_id vote) of
        None \<Rightarrow> acc(idea_id vote \<mapsto> [vote])
      | Some vs \<Rightarrow> acc(idea_id vote \<mapsto> vs @ [vote]))"

definition votesByIdea :: "IdeaVote list \<Rightarrow> (string \<rightharpoonup> IdeaVote list)" where
  "votesByIdea data = foldl pushVote Map.empty data"

text \<open>\<^verbatim>\<open>userVotes[ideaId] || []\<close>\<close>

definition existingVotes :: "(string \<rightharpoonup> IdeaVote list) \<Rightarrow> string \<Rightarrow> IdeaVote list" where
  "existingVotes userVotes ideaId = (case userVotes ideaId of None \<Rightarrow> [] | Some vs \<Rightarrow> vs)"

text \<open>
  The \<^verbatim>\<open>disabled\<close> attribute of the two vote buttons:
  \<^verbatim>\<open>(userVotes[idea.id] || []).some(vote => vote.vote_type === kind)\<close>.
\<close>

definition voteDisabled :: "(string \<rightharpoonup> IdeaVote list) \<Rightarrow> string \<Rightarrow> VoteType \<Rightarrow> bool" where
  "voteDisabled userVotes ideaId kind =
     list_ex (\<lambda>vote. vote_type vote = kind) (existingVotes userVotes ideaId)"

subsection \<open>The sorted board\<close>

text \<open>\<^verbatim>\<open>new Date(idea.created_at || '').getTime()\<close>\<close>

definition createdTime :: "env \<Rightarrow> Idea \<Rightarrow> int option" where
  "createdTime e idea = newDate e (case created_at idea of None \<Rightarrow> [] | Some s \<Rightarrow> s)"

definition ideaCompare :: "env \<Rightarrow> string \<Rightarrow> Idea \<Rightarrow> Idea \<Rightarrow> int option" where
  "ideaCompare e sortBy a b =
     (if sortBy = ''votes'' then Some (votes b - votes a)
      else num_sub (createdTime e b) (createdTime e a))"

definition sortedIdeas :: "env \<Rightarrow> string \<Rightarrow> Idea list \<Rightarrow> Idea list" where
  "sortedIdeas e sortBy ideas = array_sort (ideaCompare e sortBy) ideas"

subsection \<open>Casting a vote\<close>

text \<open>
  \<^verbatim>\<open>handleVote\<close> talks to two tables of the backend. The model keeps the tables, the
  requests the handler sends (in order), the toast it shows and whether it calls
  \<^verbatim>\<open>onUpdate\<close>. What the backend answers is an input: whether the insert and the update
  report an error, and the identifier the new vote row receives. A request that reports
  an error leaves its table as it was.
\<close>

record Database =
  idea_votes :: "IdeaVote list"
  ideas_table :: "Idea list"

record Reply =
  voteError :: bool
  new_id :: string
  updateError :: bool

datatype Request =
  InsertVote string string VoteType
| UpdateVotes string int

datatype Toast = AlreadyVoted | Success | Error

record Outcome =
  database :: Database
  requests :: "Request list"
  toast :: "Toast option"
  onUpdate :: bool

definition voteChange :: "VoteType \<Rightarrow> int" where
  "voteChange voteType = (if voteType = Upvote then 1 else - 1)"

definition insertVote :: "Database \<Rightarrow> IdeaVote \<Rightarrow> Database" where
  "insertVote d row = d\<lparr>idea_votes := idea_votes d @ [row]\<rparr>"

definition updateVotes :: "Database \<Rightarrow> string \<Rightarrow> int \<Rightarrow> Database" where
  "updateVotes d ideaId n =
     d\<lparr>ideas_table := map (\<lambda>row. if id_idea row = ideaId then row\<lparr>votes := n\<rparr> else row)
                            (ideas_table d)\<rparr>"

definition handleVote ::
  "(string \<rightharpoonup> IdeaVote list) \<Rightarrow> Idea list \<Rightarrow> string \<Rightarrow> Reply \<Rightarrow> Database
     \<Rightarrow> string \<Rightarrow> VoteType \<Rightarrow> Outcome" where
  "handleVote userVotes ideas userId reply d ideaId voteType =
     (case find (\<lambda>vote. vote_type vote = voteType) (existingVotes userVotes ideaId) of
        Some existingVote \<Rightarrow>
          \<lparr>database = d, requests = [], toast = Some AlreadyVoted, onUpdate = False\<rparr>
      | None \<Rightarrow>
          if voteError reply then
            \<lparr>database = d, requests = [InsertVote ideaId userId voteType],
             toast = Some Error, onUpdate = False\<rparr>
          else
            (let d1 = insertVote d \<lparr>id_vote = new_id reply, idea_id = ideaId,
                                    user_id = userId, vote_type = voteType\<rparr>
             in case find (\<lambda>idea. id_idea idea = ideaId) ideas of
                  None \<Rightarrow>
                    \<lparr>database = d1, requests = [InsertVote ideaId userId voteType],
                     toast = None, onUpdate = False\<rparr>
                | Some currentIdea \<Rightarrow>
                    (let n = votes currentIdea + voteChange voteType;
                         sent = [InsertVote ideaId userId voteType, UpdateVotes ideaId n]
                     in if updateError reply then
                          \<lparr>database = d1, requests = sent, toast = Some Error, onUpdate = False\<rparr>
                        else
                          \<lparr>database = updateVotes d1 ideaId n, requests = sent,
                           toast = Some Success, onUpdate = True\<rparr>)))"

section \<open>Sample records\<close>

text \<open>
  The records of the concrete evaluations carry only the fields the components read:
  a task with its identifier, due date and status, an idea with its identifier, vote count
  and creation timestamp, a vote with its identifier, idea and kind.
\<close>

definition task :: "string \<Rightarrow> string option \<Rightarrow> Status \<Rightarrow> ActionItem" where
  "task n d s = \<lparr>id_item = n, description = [], assignee = [], due_date = d, status = s,
                 meeting_id = None\<rparr>"

definition idea :: "string \<Rightarrow> int \<Rightarrow> string option \<Rightarrow> Idea" where
  "idea n v c = \<lparr>id_idea = n, title = [], description_idea = [], proposer = [], votes = v,
                 created_at = c\<rparr>"

definition vote :: "string \<Rightarrow> string \<Rightarrow> VoteType \<Rightarrow> IdeaVote" where
  "vote n i k = \<lparr>id_vote = n, idea_id = i, user_id = ''user_1'', vote_type = k\<rparr>"

section \<open>The sort agrees with the library's stable sort\<close>

text \<open>Whatever the comparator, the sorted array holds the elements of the input.\<close>

lemma mset_insertPivot: "mset (insertPivot cmp work pivot) = add_mset pivot (mset work)"
proof -
  have "mset (take k work) + mset (drop k work) = mset work" for k
    by (metis append_take_drop_id mset_append)
  then show ?thesis
    by (simp add: insertPivot_def Let_def)
qed

lemma mset_foldl_insertPivot:
  "mset (foldl (insertPivot cmp) work rest) = mset work + mset rest"
  by (induction rest arbitrary: work) (simp_all add: mset_insertPivot)

lemma mset_array_sort: "mset (array_sort cmp xs) = mset xs"
proof -
  have "mset (take k ys) + mset (drop k ys) = mset ys" for k and ys :: "'a list"
    by (metis append_take_drop_id mset_append)
  then show ?thesis
    by (simp add: array_sort_def Let_def mset_foldl_insertPivot split: list.splits)
qed

lemma set_array_sort: "set (array_sort cmp xs) = set xs"
  using mset_array_sort [of cmp xs] by (rule mset_eq_setD)

text \<open>
  When the comparator is the difference of an integer key, the search finds the place
  behind the elements whose key is at most the key of the pivot, the run is the stable sort
  of the elements it holds, and the whole sort is \<open>sort_key\<close>.
\<close>

lemma binarySearch_spec:
  fixes f :: "'a \<Rightarrow> int"
  assumes "sorted (map f work)"
    and "\<forall>y\<in>set work. cmp pivot y = Some (f pivot - f y)"
    and "left \<le> right" and "right \<le> length work"
    and "\<forall>i<left. f (work ! i) \<le> f pivot"
    and "\<forall>i. right \<le> i \<and> i < length work \<longrightarrow> f pivot < f (work ! i)"
  shows "binarySearch cmp pivot work left right \<le> length work
    \<and> (\<forall>i<binarySearch cmp pivot work left right. f (work ! i) \<le> f pivot)
    \<and> (\<forall>i. binarySearch cmp pivot work left right \<le> i \<and> i < length work
            \<longrightarrow> f pivot < f (work ! i))"
  using assms
proof (induction cmp pivot work left right rule: binarySearch.induct)
  case (1 cmp pivot work left right)
  show ?case
  proof (cases "left < right")
    case False
    then have "binarySearch cmp pivot work left right = left"
      by (simp add: binarySearch.simps [of cmp pivot work left right])
    with False "1.prems" show ?thesis
      by simp
  next
    case True
    define mid where "mid = left + (right - left) div 2"
    have mid: "left \<le> mid" "mid < right" "mid < length work"
      using True "1.prems"(4) by (simp_all add: mid_def)
    have c: "cmp pivot (work ! mid) = Some (f pivot - f (work ! mid))"
      using "1.prems"(2) mid(3) by simp
    have mono: "i \<le> j \<Longrightarrow> j < length work \<Longrightarrow> f (work ! i) \<le> f (work ! j)" for i j
      using "1.prems"(1) sorted_nth_mono [of "map f work" i j] by simp
    show ?thesis
    proof (cases "f pivot < f (work ! mid)")
      case less: True
      have step: "binarySearch cmp pivot work left right = binarySearch cmp pivot work left mid"
        using True less c
        by (simp add: binarySearch.simps [of cmp pivot work left right] mid_def cmp_order_def)
      have up: "\<forall>i. mid \<le> i \<and> i < length work \<longrightarrow> f pivot < f (work ! i)"
        using less mono by fastforce
      have "binarySearch cmp pivot work left mid \<le> length work
        \<and> (\<forall>i<binarySearch cmp pivot work left mid. f (work ! i) \<le> f pivot)
        \<and> (\<forall>i. binarySearch cmp pivot work left mid \<le> i \<and> i < length work
              \<longrightarrow> f pivot < f (work ! i))"
        using True less c mid "1.prems"(1,2,5) up
        by (intro "1.IH"(1) [of mid]) (simp_all add: mid_def cmp_order_def)
      then show ?thesis unfolding step by blast
    next
      case geq: False
      have step: "binarySearch cmp pivot work left right
                  = binarySearch cmp pivot work (mid + 1) right"
        using True geq c
        by (simp add: binarySearch.simps [of cmp pivot work left right] mid_def cmp_order_def)
      have low: "\<forall>i<mid + 1. f (work ! i) \<le> f pivot"
      proof (intro allI impI)
        fix i assume "i < mid + 1"
        then have "f (work ! i) \<le> f (work ! mid)"
          using mono [of i mid] mid(3) by simp
        with geq show "f (work ! i) \<le> f pivot" by simp
      qed
      have "binarySearch cmp pivot work (mid + 1) right \<le> length work
        \<and> (\<forall>i<binarySearch cmp pivot work (mid + 1) right. f (work ! i) \<le> f pivot)
        \<and> (\<forall>i. binarySearch cmp pivot work (mid + 1) right \<le> i \<and> i < length work
              \<longrightarrow> f pivot < f (work ! i))"
        using True geq c mid "1.prems"(1,2,4,6) low
        by (intro "1.IH"(2) [of mid]) (simp_all add: mid_def cmp_order_def)
      then show ?thesis unfolding step by blast
    qed
  qed
qed


lemma insertPivot_sort_key:
  fixes f :: "'a \<Rightarrow> int"
  assumes "\<forall>y\<in>set pre. cmp pivot y = Some (f pivot - f y)"
  shows "insertPivot cmp (sort_key f pre) pivot = sort_key f (pre @ [pivot])"
proof -
  let ?w = "sort_key f pre"
  let ?k = "binarySearch cmp pivot ?w 0 (length ?w)"
  have spec: "?k \<le> length ?w \<and> (\<forall>i<?k. f (?w ! i) \<le> f pivot)
              \<and> (\<forall>i. ?k \<le> i \<and> i < length ?w \<longrightarrow> f pivot < f (?w ! i))"
    using assms by (intro binarySearch_spec) simp_all
  have low: "\<forall>x\<in>set (take ?k ?w). f x \<le> f pivot"
    using spec by (auto simp: in_set_conv_nth)
  have high: "\<forall>x\<in>set (drop ?k ?w). f pivot < f x"
  proof
    fix x assume "x \<in> set (drop ?k ?w)"
    then obtain j where "j < length ?w - ?k" "x = ?w ! (?k + j)"
      by (auto simp: in_set_conv_nth)
    with spec show "f pivot < f x" by simp
  qed
  have srt: "sorted (map f (take ?k ?w))" "sorted (map f (drop ?k ?w))"
    using sorted_sort_key [of f pre] by (simp_all add: sorted_wrt_take sorted_wrt_drop sorted_map)
  have parts: "filter P ?w = filter P (take ?k ?w) @ filter P (drop ?k ?w)" for P
    by (metis append_take_drop_id filter_append)
  have "sort_key f (pre @ [pivot]) = take ?k ?w @ pivot # drop ?k ?w"
  proof (rule properties_for_sort_key)
    have "mset (take ?k ?w) + mset (drop ?k ?w) = mset ?w"
      by (metis append_take_drop_id mset_append)
    then show "mset (take ?k ?w @ pivot # drop ?k ?w) = mset (pre @ [pivot])"
      by simp
    show "sorted (map f (take ?k ?w @ pivot # drop ?k ?w))"
      using low high srt by (fastforce simp: sorted_append)
    fix c
    have stable: "filter (\<lambda>x. f c = f x) ?w = filter (\<lambda>x. f c = f x) pre"
      using sort_key_stable [of f "f c" pre] by (simp add: eq_commute)
    show "filter (\<lambda>x. f c = f x) (take ?k ?w @ pivot # drop ?k ?w)
          = filter (\<lambda>x. f c = f x) (pre @ [pivot])"
    proof (cases "f c = f pivot")
      case True
      have "filter (\<lambda>x. f c = f x) (drop ?k ?w) = []"
        using high True by (auto simp: filter_empty_conv)
      then show ?thesis
        using True parts [of "\<lambda>x. f c = f x"] stable by simp
    next
      case False
      then show ?thesis
        using parts [of "\<lambda>x. f c = f x"] stable by simp
    qed
  qed
  then show ?thesis
    by (simp add: insertPivot_def Let_def)
qed

lemma foldl_insertPivot_sort_key:
  fixes f :: "'a \<Rightarrow> int"
  assumes "\<forall>x\<in>set pre \<union> set rest. \<forall>y\<in>set pre \<union> set rest. cmp x y = Some (f x - f y)"
  shows "foldl (insertPivot cmp) (sort_key f pre) rest = sort_key f (pre @ rest)"
  using assms
proof (induction rest arbitrary: pre)
  case Nil
  then show ?case by simp
next
  case (Cons p rest)
  have "insertPivot cmp (sort_key f pre) p = sort_key f (pre @ [p])"
    using Cons.prems by (intro insertPivot_sort_key) simp
  moreover have "foldl (insertPivot cmp) (sort_key f (pre @ [p])) rest
                 = sort_key f ((pre @ [p]) @ rest)"
    using Cons.prems by (intro Cons.IH) auto
  ultimately show ?case by simp
qed

lemma run_extent_ascending:
  fixes f :: "'a \<Rightarrow> int"
  assumes "\<forall>x\<in>set (prev # xs). \<forall>y\<in>set (prev # xs). cmp x y = Some (f x - f y)"
  shows "sorted (map f (prev # take (run_extent cmp False prev xs) xs))"
  using assms
proof (induction xs arbitrary: prev)
  case Nil
  then show ?case by simp
next
  case (Cons x xs)
  have c: "cmp x prev = Some (f x - f prev)"
    using Cons.prems by simp
  show ?case
  proof (cases "f x < f prev")
    case True
    with c show ?thesis by (simp add: cmp_order_def)
  next
    case False
    have "sorted (map f (x # take (run_extent cmp False x xs) xs))"
      using Cons.prems by (intro Cons.IH) simp
    with False c show ?thesis by (force simp: cmp_order_def)
  qed
qed

lemma run_extent_descending:
  fixes f :: "'a \<Rightarrow> int"
  assumes "\<forall>x\<in>set (prev # xs). \<forall>y\<in>set (prev # xs). cmp x y = Some (f x - f y)"
  shows "sorted_wrt (\<lambda>a b. f b < f a) (prev # take (run_extent cmp True prev xs) xs)"
  using assms
proof (induction xs arbitrary: prev)
  case Nil
  then show ?case by simp
next
  case (Cons x xs)
  have c: "cmp x prev = Some (f x - f prev)"
    using Cons.prems by simp
  show ?case
  proof (cases "f x < f prev")
    case False
    with c show ?thesis by (simp add: cmp_order_def)
  next
    case True
    have ih: "sorted_wrt (\<lambda>a b. f b < f a) (x # take (run_extent cmp True x xs) xs)"
      using Cons.prems by (intro Cons.IH) simp
    then have "\<forall>y\<in>set (take (run_extent cmp True x xs) xs). f y < f prev"
      using True by fastforce
    with ih True c show ?thesis by (simp add: cmp_order_def)
  qed
qed

lemma descending_run_reversed:
  fixes f :: "'a \<Rightarrow> int"
  assumes "sorted_wrt (\<lambda>a b. f b < f a) run"
  shows "sort_key f run = rev run"
proof (rule properties_for_sort_key)
  show "mset (rev run) = mset run" by simp
  have "sorted_wrt (\<lambda>a b. f a < f b) (rev run)"
    using assms by (simp add: sorted_wrt_rev)
  then have "sorted_wrt (<) (map f (rev run))"
    by (simp add: sorted_wrt_map)
  then show "sorted (map f (rev run))"
    using strict_sorted_iff by blast
  fix c
  have "length (filter (\<lambda>x. f c = f x) run) \<le> 1"
    using assms by (induction run) (auto simp: filter_empty_conv)
  then have "rev (filter (\<lambda>x. f c = f x) run) = filter (\<lambda>x. f c = f x) run"
    by (cases "filter (\<lambda>x. f c = f x) run") simp_all
  then show "filter (\<lambda>x. f c = f x) (rev run) = filter (\<lambda>x. f c = f x) run"
    by (simp add: rev_filter)
qed

lemma array_sort_sort_key:
  fixes f :: "'a \<Rightarrow> int"
  assumes "\<forall>x\<in>set xs. \<forall>y\<in>set xs. cmp x y = Some (f x - f y)"
  shows "array_sort cmp xs = sort_key f xs"
proof (cases xs)
  case Nil
  then show ?thesis by (simp add: array_sort_def)
next
  case (Cons a ys)
  show ?thesis
  proof (cases ys)
    case Nil
    with Cons show ?thesis by (simp add: array_sort_def)
  next
    case (Cons b rest)
    have xs: "xs = a # b # rest"
      using \<open>xs = a # ys\<close> Cons by simp
    define desc where "desc = (cmp_order (cmp b a) < 0)"
    define n where "n = 2 + run_extent cmp desc b rest"
    define run where "run = (if desc then rev (take n xs) else take n xs)"
    have c: "cmp b a = Some (f b - f a)"
      using assms xs by simp
    have tk: "take n xs = a # b # take (run_extent cmp desc b rest) rest"
      by (simp add: n_def xs)
    have ok: "\<forall>x\<in>set (b # rest). \<forall>y\<in>set (b # rest). cmp x y = Some (f x - f y)"
      using assms xs by simp
    have run: "run = sort_key f (take n xs)"
    proof (cases desc)
      case True
      then have "f b < f a"
        using c by (simp add: desc_def cmp_order_def)
      moreover have "sorted_wrt (\<lambda>a b. f b < f a) (b # take (run_extent cmp True b rest) rest)"
        using ok by (rule run_extent_descending)
      ultimately have "sorted_wrt (\<lambda>a b. f b < f a) (take n xs)"
        using True by (fastforce simp: tk)
      then show ?thesis
        using True by (simp add: run_def descending_run_reversed)
    next
      case False
      then have "f a \<le> f b"
        using c by (simp add: desc_def cmp_order_def)
      moreover have "sorted (map f (b # take (run_extent cmp False b rest) rest))"
        using ok by (rule run_extent_ascending)
      ultimately have "sorted (map f (take n xs))"
        using False by (force simp: tk)
      then show ?thesis
        using False by (simp add: run_def sort_key_id_if_sorted)
    qed
    have "array_sort cmp xs = foldl (insertPivot cmp) run (drop n xs)"
      by (simp add: array_sort_def xs Let_def run_def n_def desc_def)
    also have "\<dots> = sort_key f (take n xs @ drop n xs)"
      unfolding run
    proof (rule foldl_insertPivot_sort_key)
      have "set (take n xs) \<union> set (drop n xs) = set xs"
        by (metis append_take_drop_id set_append)
      with assms show "\<forall>x\<in>set (take n xs) \<union> set (drop n xs).
             \<forall>y\<in>set (take n xs) \<union> set (drop n xs). cmp x y = Some (f x - f y)"
        by simp
    qed
    finally show ?thesis by simp
  qed
qed

section \<open>Concrete evaluations\<close>

text \<open>The definitions that the evaluations at concrete inputs unfold.\<close>

lemmas date_defs = date_env_def newDate_date_def parseISO_date_def parse_ymd_def parse_basic_def
  ymd_def digit_def dayNumber_def daysInMonth_def isLeapYear_def msPerDay_def

lemmas summary_defs = urgentDeadlines_def urgentFilter_def urgentCompare_def todayTasks_def
  overdueTasks_def getUrgencyBadge_def truthy_def parseDue_def dueTime_def isToday_def
  isTomorrow_def isSameDay_def isBefore_def startOfDay_def addDays_def array_sort_def
  insertPivot_def binarySearch.simps Let_def cmp_order_def num_sub_def num_le_def task_def

lemmas board_defs = sortedIdeas_def array_sort_def insertPivot_def binarySearch.simps Let_def
  ideaCompare_def cmp_order_def num_sub_def createdTime_def idea_def

section \<open>The board sorted by votes\<close>

lemma votes_is_sort_key:
  "sortedIdeas e ''votes'' ideas = sort_key (\<lambda>i. - votes i) ideas"
  unfolding sortedIdeas_def
  by (rule array_sort_sort_key) (simp add: ideaCompare_def)

text \<open>
  C7. With the key \<^verbatim>\<open>votes\<close> the board is in descending order of vote count, holds the
  same ideas, and keeps the ideas of one vote count in their input order; a list that is
  already in descending order comes back as it is.
\<close>

theorem sortedIdeas_votes_stable:
  "sorted_wrt (\<lambda>a b. votes a \<ge> votes b) (sortedIdeas e ''votes'' ideas)
   \<and> mset (sortedIdeas e ''votes'' ideas) = mset ideas
   \<and> (\<forall>n. filter (\<lambda>i. votes i = n) (sortedIdeas e ''votes'' ideas)
            = filter (\<lambda>i. votes i = n) ideas)
   \<and> (sorted_wrt (\<lambda>a b. votes a \<ge> votes b) ideas \<longrightarrow> sortedIdeas e ''votes'' ideas = ideas)"
proof (intro conjI allI impI)
  have "sorted (map (\<lambda>i. - votes i) (sort_key (\<lambda>i. - votes i) ideas))"
    by (rule sorted_sort_key)
  then show "sorted_wrt (\<lambda>a b. votes a \<ge> votes b) (sortedIdeas e ''votes'' ideas)"
    by (simp add: votes_is_sort_key sorted_map)
next
  show "mset (sortedIdeas e ''votes'' ideas) = mset ideas"
    by (simp add: votes_is_sort_key)
next
  fix n
  have "filter (\<lambda>i. - votes i = - n) (sort_key (\<lambda>i. - votes i) ideas)
        = filter (\<lambda>i. - votes i = - n) ideas"
    by (rule sort_key_stable)
  then show "filter (\<lambda>i. votes i = n) (sortedIdeas e ''votes'' ideas)
             = filter (\<lambda>i. votes i = n) ideas"
    by (simp add: votes_is_sort_key)
next
  assume "sorted_wrt (\<lambda>a b. votes a \<ge> votes b) ideas"
  then have "sorted (map (\<lambda>i. - votes i) ideas)"
    by (simp add: sorted_map)
  then show "sortedIdeas e ''votes'' ideas = ideas"
    by (simp add: votes_is_sort_key sort_key_id_if_sorted)
qed

text \<open>The ideas A, B, C with 5, 5 and 3 votes stay in the order A, B, C.\<close>

theorem sortedIdeas_votes_stable_witness:
  "sortedIdeas (date_env 0 0) ''votes'' [idea ''A'' 5 None, idea ''B'' 5 None, idea ''C'' 3 None]
   = [idea ''A'' 5 None, idea ''B'' 5 None, idea ''C'' 3 None]"
  using sortedIdeas_votes_stable
          [of "date_env 0 0" "[idea ''A'' 5 None, idea ''B'' 5 None, idea ''C'' 3 None]"]
  by (simp add: idea_def)

section \<open>The board sorted by creation time\<close>

lemma newest_is_sort_key:
  assumes "\<forall>i\<in>set ideas. createdTime e i \<noteq> None"
  shows "sortedIdeas e ''newest'' ideas = sort_key (\<lambda>i. - cmp_order (createdTime e i)) ideas"
  unfolding sortedIdeas_def
proof (rule array_sort_sort_key, intro ballI)
  fix x y assume xy: "x \<in> set ideas" "y \<in> set ideas"
  from assms xy(1) obtain a where a: "createdTime e x = Some a" by auto
  from assms xy(2) obtain b where b: "createdTime e y = Some b" by auto
  from a b show "ideaCompare e ''newest'' x y
                 = Some (- cmp_order (createdTime e x) - - cmp_order (createdTime e y))"
    by (simp add: ideaCompare_def num_sub_def cmp_order_def)
qed

text \<open>
  When the \<^verbatim>\<open>Date\<close> constructor parses the creation timestamp of every idea, the board
  sorted by \<^verbatim>\<open>newest\<close> is in descending order of creation time, holds the same ideas
  and keeps the ideas of one creation time in their input order.
\<close>

lemma newest_when_dated:
  assumes valid: "\<forall>i\<in>set ideas. createdTime e i \<noteq> None"
  shows "sorted_wrt (\<lambda>a b. num_le (createdTime e b) (createdTime e a)) (sortedIdeas e ''newest'' ideas)
      \<and> mset (sortedIdeas e ''newest'' ideas) = mset ideas
      \<and> (\<forall>t. filter (\<lambda>i. createdTime e i = t) (sortedIdeas e ''newest'' ideas)
               = filter (\<lambda>i. createdTime e i = t) ideas)"
proof (intro conjI allI)
  let ?k = "\<lambda>i. - cmp_order (createdTime e i)"
  let ?r = "sortedIdeas e ''newest'' ideas"
  have r: "?r = sort_key ?k ideas"
    using valid by (rule newest_is_sort_key)
  show m: "mset ?r = mset ideas"
    by (simp add: r)
  have v: "\<forall>i\<in>set ?r. createdTime e i \<noteq> None"
    using valid by (simp add: r)
  have "sorted (map ?k ?r)"
    unfolding r by (rule sorted_sort_key)
  then have "sorted_wrt (\<lambda>a b. ?k a \<le> ?k b) ?r"
    by (simp add: sorted_map)
  then show "sorted_wrt (\<lambda>a b. num_le (createdTime e b) (createdTime e a)) ?r"
  proof (rule sorted_wrt_mono_rel[rotated])
    fix x y assume "x \<in> set ?r" "y \<in> set ?r" "?k x \<le> ?k y"
    with v show "num_le (createdTime e y) (createdTime e x)"
      by (force simp: num_le_def cmp_order_def split: option.splits)
  qed
  fix t
  show "filter (\<lambda>i. createdTime e i = t) ?r = filter (\<lambda>i. createdTime e i = t) ideas"
  proof (cases t)
    case None
    with v valid show ?thesis by simp
  next
    case (Some n)
    have "filter (\<lambda>i. createdTime e i = t) ?r = filter (\<lambda>i. ?k i = - n) ?r"
      using v Some by (intro filter_cong) (auto simp: cmp_order_def)
    also have "\<dots> = filter (\<lambda>i. ?k i = - n) ideas"
      unfolding r by (rule sort_key_stable)
    also have "\<dots> = filter (\<lambda>i. createdTime e i = t) ideas"
      using valid Some by (intro filter_cong) (auto simp: cmp_order_def)
    finally show ?thesis .
  qed
qed

text \<open>
  An idea without a timestamp is compared through \<^verbatim>\<open>new Date('')\<close>. When that is the
  Invalid Date, the comparison of the idea with any other is NaN, which the sort reads as
  a tie.
\<close>

lemma undated_compares_as_tie:
  assumes "createdTime e a = None"
  shows "cmp_order (ideaCompare e ''newest'' a b) = 0"
    and "cmp_order (ideaCompare e ''newest'' b a) = 0"
  using assms
  by (simp_all add: ideaCompare_def num_sub_def cmp_order_def split: option.splits)

text \<open>
  Where the undated idea ends up depends on its neighbours: here the binary insertion of
  the idea of 2024-06-03 steps over it, and it comes out last.
\<close>

lemma newest_on_four_ideas:
  "sortedIdeas (date_env 0 0) ''newest''
       [idea ''A'' 0 (Some ''2024-06-01''), idea ''B'' 0 (Some ''2024-06-02''), idea ''M'' 0 None,
        idea ''C'' 0 (Some ''2024-06-03'')]
     = [idea ''C'' 0 (Some ''2024-06-03''), idea ''B'' 0 (Some ''2024-06-02''),
        idea ''A'' 0 (Some ''2024-06-01''), idea ''M'' 0 None]"
  by (simp add: board_defs date_defs)

text \<open>
  C4, where the code departs from it. In the board sorted by \<^verbatim>\<open>newest\<close> an idea
  without a creation timestamp, placed before an idea created on 2024-06-10, stays first
  instead of sorting after it; and placed between an idea of 2024-06-01 and an idea of
  2024-06-02 it keeps the three in place, the older idea ahead of the newer one.
\<close>

theorem newest_leaves_ideas_unsorted:
  "sortedIdeas (date_env 0 0) ''newest'' [idea ''M'' 0 None, idea ''A'' 0 (Some ''2024-06-10'')]
     = [idea ''M'' 0 None, idea ''A'' 0 (Some ''2024-06-10'')]
   \<and> sortedIdeas (date_env 0 0) ''newest''
       [idea ''A'' 0 (Some ''2024-06-01''), idea ''M'' 0 None, idea ''B'' 0 (Some ''2024-06-02'')]
     = [idea ''A'' 0 (Some ''2024-06-01''), idea ''M'' 0 None, idea ''B'' 0 (Some ''2024-06-02'')]"
  by (simp add: board_defs date_defs)

text \<open>In particular the undated idea is not moved behind the dated one.\<close>

theorem newest_leaves_ideas_unsorted_witness:
  "sortedIdeas (date_env 0 0) ''newest'' [idea ''M'' 0 None, idea ''A'' 0 (Some ''2024-06-10'')]
     \<noteq> [idea ''A'' 0 (Some ''2024-06-10''), idea ''M'' 0 None]"
  using newest_leaves_ideas_unsorted by (simp add: idea_def)

section \<open>The urgent deadlines\<close>

lemma isSameDay_valid: "isSameDay z d c \<Longrightarrow> d \<noteq> None"
  by (cases d) (simp_all add: isSameDay_def)

lemma urgentFilter_iff:
  "urgentFilter e item \<longleftrightarrow>
     truthy (due_date item) \<and> status item = ToDo
     \<and> (isToday e (parseDue e (due_date item)) \<or> isTomorrow e (parseDue e (due_date item)))"
  by (auto simp: urgentFilter_def Let_def)

lemma urgentFilter_parsed: "urgentFilter e item \<Longrightarrow> parseDue e (due_date item) \<noteq> None"
  unfolding urgentFilter_iff isToday_def isTomorrow_def
  using isSameDay_valid by blast

lemma urgent_sort_key:
  assumes "\<forall>item\<in>set xs. dueTime e (due_date item) \<noteq> None"
  shows "array_sort (urgentCompare e) xs = sort_key (\<lambda>i. cmp_order (dueTime e (due_date i))) xs"
proof (rule array_sort_sort_key, intro ballI)
  fix x y assume xy: "x \<in> set xs" "y \<in> set xs"
  from assms xy(1) obtain a where a: "dueTime e (due_date x) = Some a" by auto
  from assms xy(2) obtain b where b: "dueTime e (due_date y) = Some b" by auto
  from a b show "urgentCompare e x y
                 = Some (cmp_order (dueTime e (due_date x)) - cmp_order (dueTime e (due_date y)))"
    by (simp add: urgentCompare_def num_sub_def cmp_order_def)
qed

lemma prefix_filter_take: "prefix (filter Q (take n xs)) (filter Q xs)"
proof -
  have "filter Q xs = filter Q (take n xs) @ filter Q (drop n xs)"
    by (metis append_take_drop_id filter_append)
  then show ?thesis by (simp add: prefix_def)
qed

lemma urgentDeadlines_parsed:
  assumes "item \<in> set (urgentDeadlines e actionItems)"
  shows "truthy (due_date item) \<and> parseDue e (due_date item) \<noteq> None"
proof -
  from assms have "item \<in> set (array_sort (urgentCompare e) (filter (urgentFilter e) actionItems))"
    unfolding urgentDeadlines_def by (rule in_set_takeD)
  then have "urgentFilter e item"
    by (simp add: set_array_sort)
  then show ?thesis
    using urgentFilter_parsed [of e item] by (simp add: urgentFilter_iff)
qed

text \<open>
  When the \<^verbatim>\<open>Date\<close> constructor parses every due date that \<^verbatim>\<open>parseISO\<close> parses, the
  urgent list has at most five entries (five, or all the urgent tasks when there are
  fewer), each one a task of the input that is still to do and due today or tomorrow; the
  entries are in ascending order of the time the constructor gives, and the entries of one
  such time are the first ones of the input with that time, in input order.
\<close>

lemma urgentDeadlines_when_dates_parse:
  assumes "\<forall>item\<in>set actionItems.
             parseDue e (due_date item) \<noteq> None \<longrightarrow> dueTime e (due_date item) \<noteq> None"
  shows "length (urgentDeadlines e actionItems) \<le> 5
    \<and> length (urgentDeadlines e actionItems) = min 5 (length (filter (urgentFilter e) actionItems))
    \<and> (\<forall>item\<in>set (urgentDeadlines e actionItems).
          item \<in> set actionItems \<and> status item = ToDo
          \<and> (isToday e (parseDue e (due_date item)) \<or> isTomorrow e (parseDue e (due_date item))))
    \<and> sorted_wrt (\<lambda>a b. num_le (dueTime e (due_date a)) (dueTime e (due_date b)))
         (urgentDeadlines e actionItems)
    \<and> (\<forall>t. prefix (filter (\<lambda>i. dueTime e (due_date i) = t) (urgentDeadlines e actionItems))
                   (filter (\<lambda>i. dueTime e (due_date i) = t) (filter (urgentFilter e) actionItems)))"
proof -
  let ?k = "\<lambda>i. cmp_order (dueTime e (due_date i))"
  let ?f = "filter (urgentFilter e) actionItems"
  let ?s = "array_sort (urgentCompare e) ?f"
  have valid: "\<forall>item\<in>set ?f. dueTime e (due_date item) \<noteq> None"
    using assms urgentFilter_parsed by auto
  have s: "?s = sort_key ?k ?f"
    using valid by (rule urgent_sort_key)
  have u: "urgentDeadlines e actionItems = take 5 ?s"
    by (simp add: urgentDeadlines_def)
  have len: "length (urgentDeadlines e actionItems) = min 5 (length ?f)"
    by (simp add: u s min.commute)
  have mem: "\<forall>item\<in>set (urgentDeadlines e actionItems).
          item \<in> set actionItems \<and> status item = ToDo
          \<and> (isToday e (parseDue e (due_date item)) \<or> isTomorrow e (parseDue e (due_date item)))"
  proof
    fix item assume "item \<in> set (urgentDeadlines e actionItems)"
    then have "item \<in> set ?s" unfolding u by (rule in_set_takeD)
    then have "item \<in> set actionItems" "urgentFilter e item"
      by (simp_all add: set_array_sort)
    then show "item \<in> set actionItems \<and> status item = ToDo
          \<and> (isToday e (parseDue e (due_date item)) \<or> isTomorrow e (parseDue e (due_date item)))"
      by (simp add: urgentFilter_iff)
  qed
  have vs: "\<forall>item\<in>set ?s. dueTime e (due_date item) \<noteq> None"
    using valid by (simp add: set_array_sort)
  have "sorted (map ?k ?s)"
    unfolding s by (rule sorted_sort_key)
  then have "sorted_wrt (\<lambda>a b. ?k a \<le> ?k b) ?s"
    by (simp add: sorted_map)
  then have "sorted_wrt (\<lambda>a b. num_le (dueTime e (due_date a)) (dueTime e (due_date b))) ?s"
  proof (rule sorted_wrt_mono_rel[rotated])
    fix x y assume "x \<in> set ?s" "y \<in> set ?s" "?k x \<le> ?k y"
    with vs show "num_le (dueTime e (due_date x)) (dueTime e (due_date y))"
      by (force simp: num_le_def cmp_order_def split: option.splits)
  qed
  then have srt: "sorted_wrt (\<lambda>a b. num_le (dueTime e (due_date a)) (dueTime e (due_date b)))
         (urgentDeadlines e actionItems)"
    unfolding u by (rule sorted_wrt_take)
  have stab: "prefix (filter (\<lambda>i. dueTime e (due_date i) = t) (urgentDeadlines e actionItems))
                   (filter (\<lambda>i. dueTime e (due_date i) = t) ?f)" for t
  proof -
    have eq: "filter (\<lambda>i. dueTime e (due_date i) = t) ?s = filter (\<lambda>i. dueTime e (due_date i) = t) ?f"
    proof (cases t)
      case None
      have "filter (\<lambda>i. dueTime e (due_date i) = t) ?s = []"
        using vs None by (simp add: filter_empty_conv)
      moreover have "filter (\<lambda>i. dueTime e (due_date i) = t) ?f = []"
        using valid None by (simp add: filter_empty_conv)
      ultimately show ?thesis by simp
    next
      case (Some n)
      have "filter (\<lambda>i. dueTime e (due_date i) = t) ?s = filter (\<lambda>i. ?k i = n) ?s"
        using vs Some by (intro filter_cong) (auto simp: cmp_order_def)
      also have "\<dots> = filter (\<lambda>i. ?k i = n) ?f"
        unfolding s by (rule sort_key_stable)
      also have "\<dots> = filter (\<lambda>i. dueTime e (due_date i) = t) ?f"
        using valid Some by (intro filter_cong) (auto simp: cmp_order_def)
      finally show ?thesis .
    qed
    show ?thesis
      unfolding u using prefix_filter_take [of "\<lambda>i. dueTime e (due_date i) = t" 5 ?s]
      by (simp only: eq)
  qed
  from len mem srt stab show ?thesis by simp
qed

text \<open>
  When moreover the constructor reads a due date as the UTC midnight of the day that
  \<^verbatim>\<open>parseISO\<close> reads as its local midnight, as both do on \<^verbatim>\<open>yyyy-MM-dd\<close>, the
  entries are in ascending order of the due date that classifies them.
\<close>

lemma urgentDeadlines_by_due_date:
  assumes "\<forall>item\<in>set actionItems. \<forall>a. parseDue e (due_date item) = Some a
             \<longrightarrow> dueTime e (due_date item) = Some (a + tz e)"
  shows "sorted_wrt (\<lambda>a b. num_le (parseDue e (due_date a)) (parseDue e (due_date b)))
           (urgentDeadlines e actionItems)"
proof -
  have agree: "\<forall>item\<in>set actionItems.
             parseDue e (due_date item) \<noteq> None \<longrightarrow> dueTime e (due_date item) \<noteq> None"
    using assms by fastforce
  have srt: "sorted_wrt (\<lambda>a b. num_le (dueTime e (due_date a)) (dueTime e (due_date b)))
           (urgentDeadlines e actionItems)"
    and mem: "\<forall>item\<in>set (urgentDeadlines e actionItems). item \<in> set actionItems"
    using urgentDeadlines_when_dates_parse [OF agree] by simp_all
  show ?thesis
  proof (rule sorted_wrt_mono_rel [OF _ srt])
    fix x y
    assume x: "x \<in> set (urgentDeadlines e actionItems)"
      and y: "y \<in> set (urgentDeadlines e actionItems)"
      and le: "num_le (dueTime e (due_date x)) (dueTime e (due_date y))"
    from x have "parseDue e (due_date x) \<noteq> None" by (simp add: urgentDeadlines_parsed)
    then obtain a where a: "parseDue e (due_date x) = Some a" by auto
    from y have "parseDue e (due_date y) \<noteq> None" by (simp add: urgentDeadlines_parsed)
    then obtain b where b: "parseDue e (due_date y) = Some b" by auto
    have "dueTime e (due_date x) = Some (a + tz e)" "dueTime e (due_date y) = Some (b + tz e)"
      using assms mem x y a b by simp_all
    with le a b show "num_le (parseDue e (due_date x)) (parseDue e (due_date y))"
      by (simp add: num_le_def)
  qed
qed

text \<open>
  At noon of 2024-06-10, of four tasks (due tomorrow, due today, done and due today, due
  in two days) the urgent list keeps the open task due today, then the one due tomorrow.
\<close>

lemma urgentDeadlines_on_calendar_dates:
  "urgentDeadlines (date_env 0 1718020800000)
        [task ''1'' (Some ''2024-06-11'') ToDo, task ''2'' (Some ''2024-06-10'') ToDo,
         task ''3'' (Some ''2024-06-10'') Done, task ''4'' (Some ''2024-06-12'') ToDo]
      = [task ''2'' (Some ''2024-06-10'') ToDo, task ''1'' (Some ''2024-06-11'') ToDo]
   \<and> sorted_wrt (\<lambda>a b. num_le (dueTime (date_env 0 1718020800000) (due_date a))
                            (dueTime (date_env 0 1718020800000) (due_date b)))
        (urgentDeadlines (date_env 0 1718020800000)
           [task ''1'' (Some ''2024-06-11'') ToDo, task ''2'' (Some ''2024-06-10'') ToDo,
            task ''3'' (Some ''2024-06-10'') Done, task ''4'' (Some ''2024-06-12'') ToDo])"
  using urgentDeadlines_when_dates_parse
          [of "[task ''1'' (Some ''2024-06-11'') ToDo, task ''2'' (Some ''2024-06-10'') ToDo,
                task ''3'' (Some ''2024-06-10'') Done, task ''4'' (Some ''2024-06-12'') ToDo]"
              "date_env 0 1718020800000"]
  by (simp add: summary_defs date_defs)

text \<open>
  C3, where the code departs from it. The filter reads the due date with \<^verbatim>\<open>parseISO\<close>,
  the comparator with the \<^verbatim>\<open>Date\<close> constructor. At noon of 2024-06-10 a task due
  \<^verbatim>\<open>2024-06-11\<close> followed by a task due \<^verbatim>\<open>20240610\<close>, which \<^verbatim>\<open>parseISO\<close> reads as
  today and the constructor does not read, are both urgent and come out in that order:
  the task due tomorrow ahead of the task due today.
\<close>

theorem urgent_list_out_of_order:
  "urgentDeadlines (date_env 0 1718020800000)
       [task ''1'' (Some ''2024-06-11'') ToDo, task ''2'' (Some ''20240610'') ToDo]
     = [task ''1'' (Some ''2024-06-11'') ToDo, task ''2'' (Some ''20240610'') ToDo]
   \<and> parseISO (date_env 0 1718020800000) ''2024-06-11'' = Some 1718064000000
   \<and> parseISO (date_env 0 1718020800000) ''20240610'' = Some 1717977600000
   \<and> isTomorrow (date_env 0 1718020800000) (Some 1718064000000)
   \<and> isToday (date_env 0 1718020800000) (Some 1717977600000)
   \<and> newDate (date_env 0 1718020800000) ''20240610'' = None"
  by (simp add: summary_defs date_defs)

text \<open>In particular the task due today is not first.\<close>

theorem urgent_list_out_of_order_witness:
  "urgentDeadlines (date_env 0 1718020800000)
       [task ''1'' (Some ''2024-06-11'') ToDo, task ''2'' (Some ''20240610'') ToDo]
     \<noteq> [task ''2'' (Some ''20240610'') ToDo, task ''1'' (Some ''2024-06-11'') ToDo]"
  using urgent_list_out_of_order by (simp add: task_def)

section \<open>Records without a usable due date\<close>

text \<open>
  \<^verbatim>\<open>parseISO\<close> answers a string it cannot read with the Invalid Date, and
  \<^verbatim>\<open>isToday\<close>, \<^verbatim>\<open>isTomorrow\<close> and \<^verbatim>\<open>isBefore\<close> answer the Invalid Date with
  false: none of them throws, so the three lists are total functions of the tasks.
\<close>

lemma todayTasks_parsed:
  "item \<in> set (todayTasks e actionItems) \<Longrightarrow>
     truthy (due_date item) \<and> parseDue e (due_date item) \<noteq> None"
  by (auto simp: todayTasks_def isToday_def dest: isSameDay_valid)

lemma isBefore_valid: "isBefore d c \<Longrightarrow> d \<noteq> None"
  by (cases d) (simp_all add: isBefore_def)

lemma overdueTasks_parsed:
  "item \<in> set (overdueTasks e actionItems) \<Longrightarrow>
     truthy (due_date item) \<and> parseDue e (due_date item) \<noteq> None"
  by (auto simp: overdueTasks_def dest: isBefore_valid)

text \<open>
  C9. A task whose due date is missing (null or empty) or is not parsed by
  \<^verbatim>\<open>parseISO\<close> takes no part in the tasks due today, the overdue tasks or the urgent
  list: each of the three is the same as on the input without such tasks, and every task
  they hold has a non-empty due date that \<^verbatim>\<open>parseISO\<close> parses.
\<close>

theorem invalid_due_date_skipped:
  "todayTasks e actionItems
     = todayTasks e (filter (\<lambda>i. truthy (due_date i) \<and> parseDue e (due_date i) \<noteq> None) actionItems)
   \<and> overdueTasks e actionItems
     = overdueTasks e (filter (\<lambda>i. truthy (due_date i) \<and> parseDue e (due_date i) \<noteq> None) actionItems)
   \<and> urgentDeadlines e actionItems
     = urgentDeadlines e (filter (\<lambda>i. truthy (due_date i) \<and> parseDue e (due_date i) \<noteq> None) actionItems)
   \<and> (\<forall>item\<in>set (todayTasks e actionItems) \<union> set (overdueTasks e actionItems)
                 \<union> set (urgentDeadlines e actionItems).
         \<exists>s. due_date item = Some s \<and> s \<noteq> [] \<and> parseISO e s \<noteq> None)"
proof (intro conjI ballI)
  let ?ok = "\<lambda>i. truthy (due_date i) \<and> parseDue e (due_date i) \<noteq> None"
  show "todayTasks e actionItems = todayTasks e (filter ?ok actionItems)"
    unfolding todayTasks_def filter_filter
    by (rule filter_cong) (auto simp: isToday_def dest: isSameDay_valid)
  show "overdueTasks e actionItems = overdueTasks e (filter ?ok actionItems)"
    unfolding overdueTasks_def filter_filter
    by (rule filter_cong) (auto dest: isBefore_valid)
  have "filter (urgentFilter e) actionItems = filter (urgentFilter e) (filter ?ok actionItems)"
    unfolding filter_filter
    by (rule filter_cong) (use urgentFilter_parsed urgentFilter_iff in blast)+
  then show "urgentDeadlines e actionItems = urgentDeadlines e (filter ?ok actionItems)"
    by (simp add: urgentDeadlines_def)
next
  fix item
  assume "item \<in> set (todayTasks e actionItems) \<union> set (overdueTasks e actionItems)
                 \<union> set (urgentDeadlines e actionItems)"
  then have "truthy (due_date item) \<and> parseDue e (due_date item) \<noteq> None"
    using todayTasks_parsed overdueTasks_parsed urgentDeadlines_parsed by blast
  then show "\<exists>s. due_date item = Some s \<and> s \<noteq> [] \<and> parseISO e s \<noteq> None"
    by (cases "due_date item") (simp_all add: truthy_def parseDue_def)
qed

text \<open>
  At noon of 2024-06-10 the tasks due \<^verbatim>\<open>soon\<close>, with no due date and with an empty due
  date are left out of the three lists; the tasks due tomorrow and yesterday are kept.
\<close>

theorem invalid_due_date_skipped_witness:
  "todayTasks (date_env 0 1718020800000)
     [task ''1'' (Some ''soon'') ToDo, task ''2'' None ToDo, task ''3'' (Some []) ToDo,
      task ''4'' (Some ''2024-06-11'') ToDo, task ''5'' (Some ''2024-06-09'') ToDo]
     = []
   \<and> urgentDeadlines (date_env 0 1718020800000)
     [task ''1'' (Some ''soon'') ToDo, task ''2'' None ToDo, task ''3'' (Some []) ToDo,
      task ''4'' (Some ''2024-06-11'') ToDo, task ''5'' (Some ''2024-06-09'') ToDo]
     = [task ''4'' (Some ''2024-06-11'') ToDo]
   \<and> overdueTasks (date_env 0 1718020800000)
     [task ''1'' (Some ''soon'') ToDo, task ''2'' None ToDo, task ''3'' (Some []) ToDo,
      task ''4'' (Some ''2024-06-11'') ToDo, task ''5'' (Some ''2024-06-09'') ToDo]
     = [task ''5'' (Some ''2024-06-09'') ToDo]
   \<and> parseISO (date_env 0 1718020800000) ''soon'' = None"
  using invalid_due_date_skipped
          [of "date_env 0 1718020800000"
              "[task ''1'' (Some ''soon'') ToDo, task ''2'' None ToDo, task ''3'' (Some []) ToDo,
                task ''4'' (Some ''2024-06-11'') ToDo, task ''5'' (Some ''2024-06-09'') ToDo]"]
  by (simp add: summary_defs date_defs)

section \<open>The completion rate\<close>

text \<open>
  C6. The completion rate is 100 times the number of done tasks over the number of tasks,
  0 for no task, and lies between 0 and 100.
\<close>

theorem completionRate_percentage:
  "completionRate actionItems
     = (if length actionItems = 0 then 0
        else 100 * real (length (filter (\<lambda>item. status item = Done) actionItems))
               / real (length actionItems))
   \<and> 0 \<le> completionRate actionItems \<and> completionRate actionItems \<le> 100"
proof -
  have "length (filter (\<lambda>item. status item = Done) actionItems) \<le> length actionItems"
    by (rule length_filter_le)
  then have "real (length (filter (\<lambda>item. status item = Done) actionItems))
             \<le> real (length actionItems)"
    by simp
  then show ?thesis
    by (simp add: completionRate_def completedTasks_def totalTasks_def divide_le_eq)
qed

text \<open>No task gives 0; two done tasks out of three give 66.67 within half a hundredth.\<close>

theorem completionRate_percentage_witness:
  "completionRate [] = 0
   \<and> \<bar>completionRate [task ''1'' None Done, task ''2'' None Done, task ''3'' None ToDo] - 66.67\<bar>
       \<le> 0.005"
  using completionRate_percentage [of "[]"]
        completionRate_percentage
          [of "[task ''1'' None Done, task ''2'' None Done, task ''3'' None ToDo]"]
  by (simp add: task_def)

section \<open>The badge of a task due today\<close>

text \<open>
  \<^verbatim>\<open>getUrgencyBadge\<close> and \<^verbatim>\<open>overdueTasks\<close> test \<^verbatim>\<open>isBefore(date, new Date())\<close>
  first, a comparison of instants. A due date is parsed to the midnight that opens its
  day, so on the day itself it is before the clock at every instant but that midnight.
\<close>

lemma startOfDay_eq: "startOfDay z t = t - (t + z) mod msPerDay"
  by (simp add: startOfDay_def flip: minus_mod_eq_div_mult)

lemma startOfDay_le: "startOfDay z t \<le> t"
  using pos_mod_sign [of msPerDay "t + z"] by (simp add: startOfDay_eq msPerDay_def)

lemma startOfDay_idem: "startOfDay z (startOfDay z t) = startOfDay z t"
  by (simp add: startOfDay_def)

lemma due_today_after_midnight:
  assumes "parseISO e s = Some (startOfDay (tz e) (now e))"
    and "now e \<noteq> startOfDay (tz e) (now e)"
  shows "isToday e (parseISO e s) \<and> getUrgencyBadge e s = Some Overdue"
proof -
  have "startOfDay (tz e) (now e) < now e"
    using startOfDay_le [of "tz e" "now e"] assms(2) by simp
  then show ?thesis
    using assms(1)
    by (simp add: getUrgencyBadge_def isBefore_def isToday_def isSameDay_def startOfDay_idem)
qed

text \<open>
  C1, where the code departs from it. At noon of 2024-06-10 the badge of a due date
  2024-06-10 is Overdue, not Due Today (it is Due Today at midnight sharp), and the open
  task due that day is counted both among the tasks due today and among the overdue ones.
\<close>

theorem due_today_shown_overdue:
  "getUrgencyBadge (date_env 0 1718020800000) ''2024-06-10'' = Some Overdue
   \<and> getUrgencyBadge (date_env 0 1717977600000) ''2024-06-10'' = Some DueToday
   \<and> todayTasks (date_env 0 1718020800000) [task ''1'' (Some ''2024-06-10'') ToDo]
       = [task ''1'' (Some ''2024-06-10'') ToDo]
   \<and> overdueTasks (date_env 0 1718020800000) [task ''1'' (Some ''2024-06-10'') ToDo]
       = [task ''1'' (Some ''2024-06-10'') ToDo]"
  by (simp add: summary_defs date_defs)

text \<open>In particular the badge at noon is not Due Today.\<close>

theorem due_today_shown_overdue_witness:
  "getUrgencyBadge (date_env 0 1718020800000) ''2024-06-10'' \<noteq> Some DueToday"
  using due_today_shown_overdue by simp

section \<open>The votes of one idea\<close>

lemma existingVotes_pushVote:
  "existingVotes (pushVote acc v) i
     = (if idea_id v = i then existingVotes acc i @ [v] else existingVotes acc i)"
  by (simp add: existingVotes_def pushVote_def split: option.splits)

lemma votesByIdea_snoc: "votesByIdea (data @ [v]) = pushVote (votesByIdea data) v"
  by (simp add: votesByIdea_def)

lemma existingVotes_votesByIdea:
  "existingVotes (votesByIdea data) i = filter (\<lambda>v. idea_id v = i) data"
proof (induction data rule: rev_induct)
  case Nil
  then show ?case by (simp add: votesByIdea_def existingVotes_def)
next
  case (snoc v data)
  then show ?case by (simp add: votesByIdea_snoc existingVotes_pushVote)
qed

text \<open>
  C8. A vote button is disabled exactly when the idea has a group in the index and some
  vote of the group has the kind of the button. Pushing an upvote for the idea appends it
  to the group of the idea, disables the upvote button and leaves the downvote button as it
  was. On the index built from a list of votes the button is disabled exactly when the list
  holds a vote of that kind for the idea.
\<close>

theorem voteDisabled_after_vote:
  "voteDisabled userVotes ideaId kind
     = (\<exists>vs. userVotes ideaId = Some vs \<and> (\<exists>v\<in>set vs. vote_type v = kind))
   \<and> (idea_id v = ideaId \<and> vote_type v = Upvote \<longrightarrow>
        voteDisabled (pushVote userVotes v) ideaId Upvote
        \<and> voteDisabled (pushVote userVotes v) ideaId Downvote
            = voteDisabled userVotes ideaId Downvote
        \<and> existingVotes (pushVote userVotes v) ideaId = existingVotes userVotes ideaId @ [v])
   \<and> voteDisabled (votesByIdea data) ideaId kind
       = (\<exists>v\<in>set data. idea_id v = ideaId \<and> vote_type v = kind)"
proof (intro conjI impI)
  show "voteDisabled userVotes ideaId kind
     = (\<exists>vs. userVotes ideaId = Some vs \<and> (\<exists>v\<in>set vs. vote_type v = kind))"
    by (cases "userVotes ideaId") (simp_all add: voteDisabled_def existingVotes_def list_ex_iff)
  show "voteDisabled (votesByIdea data) ideaId kind
       = (\<exists>v\<in>set data. idea_id v = ideaId \<and> vote_type v = kind)"
    by (auto simp: voteDisabled_def existingVotes_votesByIdea list_ex_iff)
next
  assume a: "idea_id v = ideaId \<and> vote_type v = Upvote"
  then show "voteDisabled (pushVote userVotes v) ideaId Upvote"
    by (simp add: voteDisabled_def existingVotes_pushVote)
  from a show "voteDisabled (pushVote userVotes v) ideaId Downvote
            = voteDisabled userVotes ideaId Downvote"
    by (simp add: voteDisabled_def existingVotes_pushVote)
  from a show "existingVotes (pushVote userVotes v) ideaId = existingVotes userVotes ideaId @ [v]"
    by (simp add: existingVotes_pushVote)
qed

text \<open>After a first upvote the upvote button is disabled and the downvote button is not.\<close>

theorem voteDisabled_after_vote_witness:
  "voteDisabled (pushVote Map.empty (vote ''v1'' ''i1'' Upvote)) ''i1'' Upvote
   \<and> \<not> voteDisabled (pushVote Map.empty (vote ''v1'' ''i1'' Upvote)) ''i1'' Downvote"
  using voteDisabled_after_vote
          [where userVotes = Map.empty and v = "vote ''v1'' ''i1'' Upvote" and ideaId = "''i1''"
             and kind = Downvote]
  by (simp add: vote_def voteDisabled_def existingVotes_def)

section \<open>The duplicate check of handleVote\<close>

text \<open>The two ways out of the check: the handler stops, or it goes on to the backend.\<close>

lemma find_vote_None:
  "(find (\<lambda>vote. vote_type vote = k) vs = None) = (\<not> (\<exists>vote\<in>set vs. vote_type vote = k))"
  by (auto simp: find_None_iff)

lemma handleVote_rejected:
  assumes "\<exists>vote\<in>set (existingVotes userVotes ideaId). vote_type vote = voteType"
  shows "handleVote userVotes ideas userId reply d ideaId voteType
          = \<lparr>database = d, requests = [], toast = Some AlreadyVoted, onUpdate = False\<rparr>"
proof -
  from assms have "find (\<lambda>vote. vote_type vote = voteType) (existingVotes userVotes ideaId) \<noteq> None"
    by (simp add: find_vote_None)
  then show ?thesis
    by (auto simp: handleVote_def)
qed

lemma handleVote_accepted:
  assumes "\<not> (\<exists>vote\<in>set (existingVotes userVotes ideaId). vote_type vote = voteType)"
  shows "handleVote userVotes ideas userId reply d ideaId voteType =
     (if voteError reply then
        \<lparr>database = d, requests = [InsertVote ideaId userId voteType],
         toast = Some Error, onUpdate = False\<rparr>
      else
        (let d1 = insertVote d \<lparr>id_vote = new_id reply, idea_id = ideaId,
                                user_id = userId, vote_type = voteType\<rparr>
         in case find (\<lambda>idea. id_idea idea = ideaId) ideas of
              None \<Rightarrow>
                \<lparr>database = d1, requests = [InsertVote ideaId userId voteType],
                 toast = None, onUpdate = False\<rparr>
            | Some currentIdea \<Rightarrow>
                (let n = votes currentIdea + voteChange voteType;
                     sent = [InsertVote ideaId userId voteType, UpdateVotes ideaId n]
                 in if updateError reply then
                      \<lparr>database = d1, requests = sent, toast = Some Error, onUpdate = False\<rparr>
                    else
                      \<lparr>database = updateVotes d1 ideaId n, requests = sent,
                       toast = Some Success, onUpdate = True\<rparr>)))"
proof -
  from assms have "find (\<lambda>vote. vote_type vote = voteType) (existingVotes userVotes ideaId) = None"
    by (simp add: find_vote_None)
  then show ?thesis
    by (simp add: handleVote_def)
qed

lemma handleVote_toast:
  "(toast (handleVote userVotes ideas userId reply d ideaId voteType) = Some AlreadyVoted)
     = (\<exists>vote\<in>set (existingVotes userVotes ideaId). vote_type vote = voteType)"
proof (cases "\<exists>vote\<in>set (existingVotes userVotes ideaId). vote_type vote = voteType")
  case True
  then show ?thesis by (simp add: handleVote_rejected)
next
  case False
  then show ?thesis
    by (simp add: handleVote_accepted Let_def split: option.splits)
qed

text \<open>
  C2. \<^verbatim>\<open>handleVote\<close> shows the toast "Already voted" exactly when the cached votes of
  the current user for the idea hold a vote of the kind asked for. In that case it stops
  there: no request is sent and the tables are untouched. Otherwise its first request is
  the insertion of the vote. With no cached vote for the idea neither kind is rejected; once
  a vote is in the cache a vote of the same kind is rejected, and the answer for the other
  kind is what it was.
\<close>

theorem handleVote_already_voted:
  "(toast (handleVote userVotes ideas userId reply d ideaId voteType) = Some AlreadyVoted)
     = (\<exists>vote\<in>set (existingVotes userVotes ideaId). vote_type vote = voteType)
   \<and> ((\<exists>vote\<in>set (existingVotes userVotes ideaId). vote_type vote = voteType) \<longrightarrow>
        handleVote userVotes ideas userId reply d ideaId voteType
          = \<lparr>database = d, requests = [], toast = Some AlreadyVoted, onUpdate = False\<rparr>)
   \<and> (\<not> (\<exists>vote\<in>set (existingVotes userVotes ideaId). vote_type vote = voteType) \<longrightarrow>
        (\<exists>rest. requests (handleVote userVotes ideas userId reply d ideaId voteType)
                 = InsertVote ideaId userId voteType # rest))
   \<and> (userVotes ideaId = None \<longrightarrow>
        toast (handleVote userVotes ideas userId reply d ideaId voteType) \<noteq> Some AlreadyVoted)
   \<and> (idea_id v = ideaId \<longrightarrow>
        toast (handleVote (pushVote userVotes v) ideas userId reply d ideaId (vote_type v))
          = Some AlreadyVoted)
   \<and> (idea_id v = ideaId \<and> vote_type v \<noteq> voteType \<longrightarrow>
        (toast (handleVote (pushVote userVotes v) ideas userId reply d ideaId voteType)
           = Some AlreadyVoted)
        = (toast (handleVote userVotes ideas userId reply d ideaId voteType) = Some AlreadyVoted))"
proof (intro conjI impI)
  show "(toast (handleVote userVotes ideas userId reply d ideaId voteType) = Some AlreadyVoted)
     = (\<exists>vote\<in>set (existingVotes userVotes ideaId). vote_type vote = voteType)"
    by (rule handleVote_toast)
  show "handleVote userVotes ideas userId reply d ideaId voteType
          = \<lparr>database = d, requests = [], toast = Some AlreadyVoted, onUpdate = False\<rparr>"
    if "\<exists>vote\<in>set (existingVotes userVotes ideaId). vote_type vote = voteType"
    using that by (rule handleVote_rejected)
  show "\<exists>rest. requests (handleVote userVotes ideas userId reply d ideaId voteType)
                 = InsertVote ideaId userId voteType # rest"
    if "\<not> (\<exists>vote\<in>set (existingVotes userVotes ideaId). vote_type vote = voteType)"
    using that by (simp add: handleVote_accepted Let_def split: option.splits)
  show "toast (handleVote userVotes ideas userId reply d ideaId voteType) \<noteq> Some AlreadyVoted"
    if "userVotes ideaId = None"
    using that by (simp add: handleVote_toast existingVotes_def)
  show "toast (handleVote (pushVote userVotes v) ideas userId reply d ideaId (vote_type v))
          = Some AlreadyVoted"
    if "idea_id v = ideaId"
    using that by (simp add: handleVote_toast existingVotes_pushVote)
  show "(toast (handleVote (pushVote userVotes v) ideas userId reply d ideaId voteType)
           = Some AlreadyVoted)
        = (toast (handleVote userVotes ideas userId reply d ideaId voteType) = Some AlreadyVoted)"
    if "idea_id v = ideaId \<and> vote_type v \<noteq> voteType"
    using that by (simp add: handleVote_toast existingVotes_pushVote)
qed

text \<open>
  The user has upvoted the idea \<^verbatim>\<open>i1\<close>: a second upvote is refused without a request,
  a first downvote goes through.
\<close>

theorem handleVote_already_voted_witness:
  "toast (handleVote (votesByIdea [vote ''v1'' ''i1'' Upvote]) [idea ''i1'' 10 None] ''user_1''
            \<lparr>voteError = False, new_id = ''v2'', updateError = False\<rparr>
            \<lparr>idea_votes = [vote ''v1'' ''i1'' Upvote], ideas_table = [idea ''i1'' 10 None]\<rparr>
            ''i1'' Upvote) = Some AlreadyVoted
   \<and> requests (handleVote (votesByIdea [vote ''v1'' ''i1'' Upvote]) [idea ''i1'' 10 None] ''user_1''
            \<lparr>voteError = False, new_id = ''v2'', updateError = False\<rparr>
            \<lparr>idea_votes = [vote ''v1'' ''i1'' Upvote], ideas_table = [idea ''i1'' 10 None]\<rparr>
            ''i1'' Upvote) = []
   \<and> toast (handleVote (votesByIdea [vote ''v1'' ''i1'' Upvote]) [idea ''i1'' 10 None] ''user_1''
            \<lparr>voteError = False, new_id = ''v2'', updateError = False\<rparr>
            \<lparr>idea_votes = [vote ''v1'' ''i1'' Upvote], ideas_table = [idea ''i1'' 10 None]\<rparr>
            ''i1'' Downvote) = Some Success"
  using handleVote_already_voted
          [where userVotes = "votesByIdea [vote ''v1'' ''i1'' Upvote]" and ideaId = "''i1''"
             and voteType = Upvote and ideas = "[idea ''i1'' 10 None]" and userId = "''user_1''"
             and reply = "\<lparr>voteError = False, new_id = ''v2'', updateError = False\<rparr>"
             and d = "\<lparr>idea_votes = [vote ''v1'' ''i1'' Upvote], ideas_table = [idea ''i1'' 10 None]\<rparr>"
             and v = "vote ''v1'' ''i1'' Upvote"]
  by (simp add: handleVote_def existingVotes_def pushVote_def votesByIdea_def vote_def idea_def
      Let_def)

section \<open>The vote count sent to the backend\<close>

lemma votes_after_update:
  assumes "row' = (if id_idea row = i then row\<lparr>votes := n\<rparr> else row)"
    and "id_idea row' = i"
  shows "votes row' = n"
  using assms by (cases "id_idea row = i") simp_all

lemma ideas_table_updateVotes:
  "ideas_table (updateVotes d1 ideaId n)
     = map (\<lambda>row. if id_idea row = ideaId then row\<lparr>votes := n\<rparr> else row) (ideas_table d1)"
  by (simp add: updateVotes_def)

lemma updateVotes_rows:
  "\<forall>row\<in>set (ideas_table (updateVotes d1 ideaId n)). id_idea row = ideaId \<longrightarrow> votes row = n"
proof (intro ballI impI)
  fix r
  assume "r \<in> set (ideas_table (updateVotes d1 ideaId n))" and i: "id_idea r = ideaId"
  then have "r \<in> (\<lambda>row. if id_idea row = ideaId then row\<lparr>votes := n\<rparr> else row)
                   ` set (ideas_table d1)"
    by (simp only: ideas_table_updateVotes set_map)
  then obtain x where "r = (if id_idea x = ideaId then x\<lparr>votes := n\<rparr> else x)"
    by (rule imageE)
  then show "votes r = n"
    using i by (rule votes_after_update)
qed

text \<open>
  C5. When the vote passes the duplicate check, the insertion succeeds and the idea is in
  the snapshot with count \<open>c\<close>, the handler asks the backend to set the count of the idea
  to \<open>c + 1\<close> for an upvote and to \<open>c - 1\<close> for a downvote, whatever the sign of the
  result; when the update succeeds every row of that idea holds this count.
\<close>

theorem vote_count_update:
  assumes "\<not> (\<exists>vote\<in>set (existingVotes userVotes ideaId). vote_type vote = voteType)"
    and "\<not> voteError reply"
    and "find (\<lambda>idea. id_idea idea = ideaId) ideas = Some currentIdea"
  shows "requests (handleVote userVotes ideas userId reply d ideaId voteType)
           = [InsertVote ideaId userId voteType,
              UpdateVotes ideaId (case voteType of Upvote \<Rightarrow> votes currentIdea + 1
                                                 | Downvote \<Rightarrow> votes currentIdea - 1)]
    \<and> (\<not> updateError reply \<longrightarrow>
         (\<forall>row\<in>set (ideas_table (database
                        (handleVote userVotes ideas userId reply d ideaId voteType))).
            id_idea row = ideaId \<longrightarrow>
              votes row = (case voteType of Upvote \<Rightarrow> votes currentIdea + 1
                                          | Downvote \<Rightarrow> votes currentIdea - 1)))"
proof -
  let ?n = "votes currentIdea + voteChange voteType"
  let ?d1 = "insertVote d \<lparr>id_vote = new_id reply, idea_id = ideaId, user_id = userId,
                           vote_type = voteType\<rparr>"
  have n: "?n = (case voteType of Upvote \<Rightarrow> votes currentIdea + 1
                                 | Downvote \<Rightarrow> votes currentIdea - 1)"
    by (cases voteType) (simp_all add: voteChange_def)
  have h: "handleVote userVotes ideas userId reply d ideaId voteType
           = (if updateError reply then
                \<lparr>database = ?d1,
                 requests = [InsertVote ideaId userId voteType, UpdateVotes ideaId ?n],
                 toast = Some Error, onUpdate = False\<rparr>
              else
                \<lparr>database = updateVotes ?d1 ideaId ?n,
                 requests = [InsertVote ideaId userId voteType, UpdateVotes ideaId ?n],
                 toast = Some Success, onUpdate = True\<rparr>)"
    unfolding handleVote_accepted [OF assms(1)] using assms(2,3) by (simp add: Let_def)
  have r: "requests (handleVote userVotes ideas userId reply d ideaId voteType)
           = [InsertVote ideaId userId voteType, UpdateVotes ideaId ?n]"
    by (simp add: h)
  have t: "\<forall>row\<in>set (ideas_table (updateVotes ?d1 ideaId ?n)).
             id_idea row = ideaId \<longrightarrow> votes row = ?n"
    by (rule updateVotes_rows)
  have u: "\<not> updateError reply \<longrightarrow>
         (\<forall>row\<in>set (ideas_table (database
                        (handleVote userVotes ideas userId reply d ideaId voteType))).
            id_idea row = ideaId \<longrightarrow> votes row = ?n)"
    using t by (simp add: h)
  from r u show ?thesis
    unfolding n by blast
qed

text \<open>
  From a count of 10 an upvote asks for 11 and a downvote for 9; from a count of 0 a
  downvote asks for -1.
\<close>

theorem vote_count_update_witness:
  "requests (handleVote Map.empty [idea ''i1'' 10 None] ''user_1''
              \<lparr>voteError = False, new_id = ''v2'', updateError = False\<rparr>
              \<lparr>idea_votes = [], ideas_table = [idea ''i1'' 10 None]\<rparr> ''i1'' Upvote)
     = [InsertVote ''i1'' ''user_1'' Upvote, UpdateVotes ''i1'' 11]
   \<and> requests (handleVote Map.empty [idea ''i1'' 10 None] ''user_1''
              \<lparr>voteError = False, new_id = ''v2'', updateError = False\<rparr>
              \<lparr>idea_votes = [], ideas_table = [idea ''i1'' 10 None]\<rparr> ''i1'' Downvote)
     = [InsertVote ''i1'' ''user_1'' Downvote, UpdateVotes ''i1'' 9]
   \<and> requests (handleVote Map.empty [idea ''i1'' 0 None] ''user_1''
              \<lparr>voteError = False, new_id = ''v2'', updateError = False\<rparr>
              \<lparr>idea_votes = [], ideas_table = [idea ''i1'' 0 None]\<rparr> ''i1'' Downvote)
     = [InsertVote ''i1'' ''user_1'' Downvote, UpdateVotes ''i1'' (- 1)]"
  using vote_count_update
          [where userVotes = Map.empty and ideaId = "''i1''" and voteType = Upvote
             and ideas = "[idea ''i1'' 10 None]" and currentIdea = "idea ''i1'' 10 None"
             and userId = "''user_1''"
             and reply = "\<lparr>voteError = False, new_id = ''v2'', updateError = False\<rparr>"
             and d = "\<lparr>idea_votes = [], ideas_table = [idea ''i1'' 10 None]\<rparr>"]
        vote_count_update
          [where userVotes = Map.empty and ideaId = "''i1''" and voteType = Downvote
             and ideas = "[idea ''i1'' 10 None]" and currentIdea = "idea ''i1'' 10 None"
             and userId = "''user_1''"
             and reply = "\<lparr>voteError = False, new_id = ''v2'', updateError = False\<rparr>"
             and d = "\<lparr>idea_votes = [], ideas_table = [idea ''i1'' 10 None]\<rparr>"]
        vote_count_update
          [where userVotes = Map.empty and ideaId = "''i1''" and voteType = Downvote
             and ideas = "[idea ''i1'' 0 None]" and currentIdea = "idea ''i1'' 0 None"
             and userId = "''user_1''"
             and reply = "\<lparr>voteError = False, new_id = ''v2'', updateError = False\<rparr>"
             and d = "\<lparr>idea_votes = [], ideas_table = [idea ''i1'' 0 None]\<rparr>"]
  by (simp add: existingVotes_def idea_def)

section \<open>A vote on an idea that is not in the snapshot\<close>

text \<open>
  C10. When the vote passes the duplicate check, the insertion succeeds and the idea is not
  in the snapshot, the handler has inserted the vote row and stops: the insertion is its
  only request, it shows no toast, does not call \<^verbatim>\<open>onUpdate\<close>, and the table of ideas is
  what it was.
\<close>

theorem vote_on_unlisted_idea:
  assumes "\<not> (\<exists>vote\<in>set (existingVotes userVotes ideaId). vote_type vote = voteType)"
    and "\<not> voteError reply"
    and "find (\<lambda>idea. id_idea idea = ideaId) ideas = None"
  shows "handleVote userVotes ideas userId reply d ideaId voteType
           = \<lparr>database = d\<lparr>idea_votes := idea_votes d @
                   [\<lparr>id_vote = new_id reply, idea_id = ideaId, user_id = userId,
                     vote_type = voteType\<rparr>]\<rparr>,
              requests = [InsertVote ideaId userId voteType], toast = None, onUpdate = False\<rparr>
    \<and> ideas_table (database (handleVote userVotes ideas userId reply d ideaId voteType))
        = ideas_table d"
  using assms by (simp add: handleVote_accepted Let_def insertVote_def)

text \<open>
  A vote on the idea \<^verbatim>\<open>i9\<close>, absent from the snapshot: the vote row is inserted, the
  count of no idea changes, and nothing is shown.
\<close>

theorem vote_on_unlisted_idea_witness:
  "handleVote Map.empty [idea ''i1'' 10 None] ''user_1''
     \<lparr>voteError = False, new_id = ''v2'', updateError = False\<rparr>
     \<lparr>idea_votes = [], ideas_table = [idea ''i1'' 10 None]\<rparr> ''i9'' Upvote
   = \<lparr>database = \<lparr>idea_votes = [\<lparr>id_vote = ''v2'', idea_id = ''i9'', user_id = ''user_1'',
                                    vote_type = Upvote\<rparr>],
                    ideas_table = [idea ''i1'' 10 None]\<rparr>,
      requests = [InsertVote ''i9'' ''user_1'' Upvote], toast = None, onUpdate = False\<rparr>"
  using vote_on_unlisted_idea
          [where userVotes = Map.empty and ideaId = "''i9''" and voteType = Upvote
             and ideas = "[idea ''i1'' 10 None]" and userId = "''user_1''"
             and reply = "\<lparr>voteError = False, new_id = ''v2'', updateError = False\<rparr>"
             and d = "\<lparr>idea_votes = [], ideas_table = [idea ''i1'' 10 None]\<rparr>"]
  by (simp add: existingVotes_def idea_def)

end
